theory Spec2Isabelle
  imports Complex_Main "HOL-Library.Log_Nat"
begin

section \<open>The windowing pipeline of the virtual scroll grid (\<^verbatim>\<open>src/pipeline.ts\<close>)\<close>

subsection \<open>JavaScript numbers\<close>

text \<open>
  A finite JavaScript \<^verbatim>\<open>number\<close> is modelled by the real number it denotes; pixel
  measurements are \<^typ>\<open>real\<close>, counts and indices are \<^typ>\<open>int\<close>. An operation that
  leaves the finite numbers (\<^verbatim>\<open>/\<close> and \<^verbatim>\<open>%\<close> with a zero divisor give \<^verbatim>\<open>NaN\<close> or
  an infinity) returns \<^term>\<open>None\<close>. Overflow to an infinity, integers from \<open>2^53\<close> on and
  the sign of zero are not modelled.
\<close>

text \<open>
  The result of an arithmetic operation on doubles is the exact result rounded to the
  nearest double, ties to the even significand. \<^term>\<open>double_exponent x\<close> is the \<open>e\<close> with
  \<open>2^e \<le> \<bar>x\<bar> < 2^(e + 1)\<close>; a double has 53 significant bits, and below \<open>2^-1022\<close> the
  spacing of the subnormal numbers.
\<close>

definition double_exponent :: "real \<Rightarrow> int" where
  "double_exponent x =
     (if 1 \<le> \<bar>x\<bar> then bitlen \<lfloor>\<bar>x\<bar>\<rfloor> - 1
      else let k = bitlen \<lfloor>1 / \<bar>x\<bar>\<rfloor> - 1
           in if \<bar>x\<bar> * 2 powi k = 1 then - k else - k - 1)"

definition round_half_even :: "real \<Rightarrow> int" where
  "round_half_even y =
     (let f = \<lfloor>y\<rfloor>; d = y - of_int f
      in if d < 1 / 2 then f else if 1 / 2 < d then f + 1 else if even f then f else f + 1)"

definition round_double :: "real \<Rightarrow> real" where
  "round_double x =
     (if x = 0 then 0
      else let e = max (double_exponent x) (- 1022);
               ulp = 2 powi (e - 52)
           in of_int (round_half_even (x / ulp)) * ulp)"

text \<open>\<^verbatim>\<open>a + b\<close> and \<^verbatim>\<open>a / b\<close> on doubles.\<close>

definition double_add :: "real \<Rightarrow> real \<Rightarrow> real" where
  "double_add a b = round_double (a + b)"

definition double_div :: "real \<Rightarrow> real \<Rightarrow> real option" where
  "double_div a b = (if b = 0 then None else Some (round_double (a / b)))"

text \<open>
  \<^verbatim>\<open>a / b\<close> where both operands are integers and only the floor or the ceiling of the
  quotient is used: for integers below \<open>2^53\<close> the rounded quotient has the floor and the
  ceiling of the exact one, which is kept.
\<close>

definition js_div :: "real \<Rightarrow> real \<Rightarrow> real option" where
  "js_div a b = (if b = 0 then None else Some (a / b))"

text \<open>\<^verbatim>\<open>a % b\<close> on integers: the remainder of the truncating division, signed as \<open>a\<close>.\<close>

definition js_rem :: "int \<Rightarrow> int \<Rightarrow> int option" where
  "js_rem a b = (if b = 0 then None else Some (sgn a * (\<bar>a\<bar> mod \<bar>b\<bar>)))"

subsection \<open>Measurements and the buffer window\<close>

record ResizeMeasurement =
  rowGap :: real
  columns :: int
  itemHeightWithGap :: real
  itemWidthWithGap :: real

record BufferMeta =
  bufferedOffset :: int
  bufferedLength :: int

text \<open>
  \<^verbatim>\<open>getBufferMeta(windowInnerHeight)(heightAboveWindow, measurement)\<close>.
  \<^verbatim>\<open>itemHeightWithGap && e\<close> is \<^verbatim>\<open>itemHeightWithGap\<close> itself (here \<open>0\<close>) when it is
  falsy and \<open>e\<close> otherwise, so neither division runs with a zero divisor. The sums and
  the quotients are those of doubles; \<^verbatim>\<open>length / 2\<close> is exact. The result is
  \<^term>\<open>None\<close> when a field would not be a finite number.
\<close>

definition getBufferMeta :: "real \<Rightarrow> real \<Rightarrow> ResizeMeasurement \<Rightarrow> BufferMeta option" where
  "getBufferMeta windowInnerHeight heightAboveWindow m =
     Option.bind
       (if itemHeightWithGap m = 0 then Some 0
        else map_option (\<lambda>q. \<lceil>q\<rceil> + 1)
               (double_div (double_add windowInnerHeight (rowGap m)) (itemHeightWithGap m)))
       (\<lambda>rowsInView.
          let len = rowsInView * columns m in
          Option.bind
            (if itemHeightWithGap m = 0 then Some 0
             else map_option (\<lambda>q. \<lfloor>q\<rfloor>)
                    (double_div (double_add heightAboveWindow (rowGap m)) (itemHeightWithGap m)))
            (\<lambda>rowsBeforeView.
               let offset = rowsBeforeView * columns m;
                   bufferedOffset = max (offset - \<lfloor>(of_int len :: real) / 2\<rfloor>) 0;
                   bufferedLength = len * 2
               in Some \<lparr>bufferedOffset = bufferedOffset, bufferedLength = bufferedLength\<rparr>))"

subsection \<open>Visible page numbers\<close>

text \<open>
  \<^verbatim>\<open>range(start, count)\<close> of RxJS, as the list of its emissions: nothing when
  \<open>count \<le> 0\<close>, otherwise \<open>start, start + 1, \<dots>\<close> while below \<open>start + count\<close>.
\<close>

definition rxjs_range :: "int \<Rightarrow> int \<Rightarrow> int list" where
  "rxjs_range start count = (if count \<le> 0 then [] else [start..start + count - 1])"

definition getObservableOfVisiblePageNumbers :: "BufferMeta \<Rightarrow> int \<Rightarrow> int \<Rightarrow> int list option" where
  "getObservableOfVisiblePageNumbers b len pageSize =
     Option.bind (js_div (of_int (bufferedOffset b)) (of_int pageSize))
       (\<lambda>q. let startPage = \<lfloor>q\<rfloor> in
          Option.bind
            (js_div (of_int (min (bufferedOffset b + bufferedLength b) len)) (of_int pageSize))
            (\<lambda>r. let endPage = \<lceil>r\<rceil>;
                      numberOfPages = endPage - startPage
                  in Some (rxjs_range startPage numberOfPages)))"

subsection \<open>Arrays\<close>

text \<open>
  An array is a list; an element that is \<^verbatim>\<open>undefined\<close> (a hole of the collection) is
  \<^term>\<open>None\<close>. \<^verbatim>\<open>new Array(n)\<close> throws a \<^verbatim>\<open>RangeError\<close> for a negative \<open>n\<close>; the
  upper bound \<open>2^32\<close> on array lengths is not modelled.
\<close>

datatype js_error = RangeError

definition new_Array_fill_undefined :: "int \<Rightarrow> js_error + 'a option list" where
  "new_Array_fill_undefined n = (if n < 0 then Inl RangeError else Inr (replicate (nat n) None))"

text \<open>
  Ramda's \<^verbatim>\<open>slice(fromIndex, toIndex, list)\<close> is \<^verbatim>\<open>Array.prototype.slice\<close>: a negative
  bound counts from the end, and both bounds are clamped to the array.
\<close>

definition ramda_slice :: "int \<Rightarrow> int \<Rightarrow> 'a list \<Rightarrow> 'a list" where
  "ramda_slice fromIndex toIndex xs =
     (let n = int (length xs);
          k = (if fromIndex < 0 then max (n + fromIndex) 0 else min fromIndex n);
          final = (if toIndex < 0 then max (n + toIndex) 0 else min toIndex n)
      in take (nat (final - k)) (drop (nat k) xs))"

text \<open>
  Ramda's \<^verbatim>\<open>remove(start, count, list)\<close> copies the list and calls
  \<^verbatim>\<open>splice(start, count)\<close> on the copy.
\<close>

definition ramda_remove :: "int \<Rightarrow> int \<Rightarrow> 'a list \<Rightarrow> 'a list" where
  "ramda_remove start count xs =
     (let n = int (length xs);
          actualStart = (if start < 0 then max (n + start) 0 else min start n);
          actualDeleteCount = min (max count 0) (n - actualStart)
      in take (nat actualStart) xs @ drop (nat (actualStart + actualDeleteCount)) xs)"

text \<open>
  Ramda's \<^verbatim>\<open>insertAll(idx, elts, list)\<close>: an index that is negative or not below the
  length of the list appends.
\<close>

definition ramda_insertAll :: "int \<Rightarrow> 'a list \<Rightarrow> 'a list \<Rightarrow> 'a list" where
  "ramda_insertAll idx elts xs =
     (let i = (if idx < int (length xs) \<and> 0 \<le> idx then idx else int (length xs))
      in ramda_slice 0 i xs @ elts @ ramda_slice i (int (length xs)) xs)"

subsection \<open>The item accumulator\<close>

record 'a ItemsByPage =
  pageNumber :: int
  items :: "'a option list"

text \<open>\<^verbatim>\<open>accumulateAllItems(allItems, [{pageNumber, items}, length, pageSize])\<close>.\<close>

definition accumulateAllItems ::
    "'a option list \<Rightarrow> 'a ItemsByPage \<times> int \<times> int \<Rightarrow> js_error + 'a option list" where
  "accumulateAllItems allItems arg =
     (case arg of (page, len, pageSize) \<Rightarrow>
        (case new_Array_fill_undefined (max (len - int (length allItems)) 0) of
           Inl e \<Rightarrow> Inl e
         | Inr allItemsFill \<Rightarrow>
            (case new_Array_fill_undefined (max (pageSize - int (length (items page))) 0) of
               Inl e \<Rightarrow> Inl e
             | Inr pageFill \<Rightarrow>
                 let normalizedItems = ramda_slice 0 pageSize (items page) @ pageFill
                 in Inr (ramda_slice 0 len
                          (ramda_insertAll (pageNumber page * pageSize) normalizedItems
                            (ramda_remove (pageNumber page * pageSize) pageSize
                              (allItems @ allItemsFill)))))))"

text \<open>
  \<^verbatim>\<open>scan(accumulateAllItems, seed)\<close> over the triples that arrive: the accumulator after the
  last of them. An exception of one step ends the stream.
\<close>

fun scan_accumulateAllItems ::
    "'a option list \<Rightarrow> ('a ItemsByPage \<times> int \<times> int) list \<Rightarrow> js_error + 'a option list" where
  "scan_accumulateAllItems acc [] = Inr acc"
| "scan_accumulateAllItems acc (e # es) =
     (case accumulateAllItems acc e of
        Inl err \<Rightarrow> Inl err
      | Inr acc' \<Rightarrow> scan_accumulateAllItems acc' es)"

subsection \<open>Visible items\<close>

text \<open>
  The template string \<^verbatim>\<open>translate(${x}px, ${y}px)\<close> is kept as its two numbers; a
  coordinate that is not a finite number is \<^term>\<open>None\<close>.
\<close>

datatype css_transform = Translate "real option" "real option"

record Style =
  transform :: css_transform
  gridArea :: string

record 'a InternalItem =
  index :: int
  item_value :: "'a option"
  style :: "Style option"

definition getVisibleItems ::
    "BufferMeta \<Rightarrow> ResizeMeasurement \<Rightarrow> 'a option list \<Rightarrow> 'a InternalItem list" where
  "getVisibleItems b m allItems =
     map (\<lambda>(localIndex, v).
            let i = bufferedOffset b + int localIndex;
                x = map_option (\<lambda>r. of_int r * itemWidthWithGap m) (js_rem i (columns m));
                y = map_option (\<lambda>q. of_int \<lfloor>q\<rfloor> * itemHeightWithGap m)
                      (js_div (of_int i) (of_int (columns m)))
            in \<lparr>index = i, item_value = v,
                style = Some \<lparr>transform = Translate x y, gridArea = ''1/1''\<rparr>\<rparr>)
       (enumerate 0
          (ramda_slice (bufferedOffset b) (bufferedOffset b + bufferedLength b) allItems))"

subsection \<open>The render buffer\<close>

text \<open>
  \<^verbatim>\<open>accumulateBuffer\<close> depends on the identity of the slot objects: Ramda's
  \<^verbatim>\<open>difference\<close> and \<^verbatim>\<open>without\<close> compare by value (\<^verbatim>\<open>R.equals\<close>), a JavaScript
  \<^verbatim>\<open>Map\<close> compares its keys by reference. A reference is the address of an object
  together with the contents found there; slots are never mutated.
\<close>

type_synonym 'a ref = "nat \<times> 'a"

text \<open>
  \<^verbatim>\<open>difference(first, second)\<close>: the elements of \<open>first\<close> whose value is neither in
  \<open>second\<close> nor an earlier element of \<open>first\<close>.
\<close>

fun ramda_difference_loop :: "'a list \<Rightarrow> 'a ref list \<Rightarrow> 'a ref list" where
  "ramda_difference_loop toFilterOut [] = []"
| "ramda_difference_loop toFilterOut (x # first) =
     (if snd x \<in> set toFilterOut then ramda_difference_loop toFilterOut first
      else x # ramda_difference_loop (snd x # toFilterOut) first)"

definition ramda_difference :: "'a ref list \<Rightarrow> 'a ref list \<Rightarrow> 'a ref list" where
  "ramda_difference first second = ramda_difference_loop (map snd second) first"

definition ramda_without :: "'a ref list \<Rightarrow> 'a ref list \<Rightarrow> 'a ref list" where
  "ramda_without xs list = filter (\<lambda>x. snd x \<notin> set (map snd xs)) list"

text \<open>
  A \<^verbatim>\<open>Map\<close> keeps its entries in insertion order; setting a key that is present (the same
  address) replaces its value in place.
\<close>

fun Map_set :: "'a ref \<Rightarrow> 'b \<Rightarrow> ('a ref \<times> 'b) list \<Rightarrow> ('a ref \<times> 'b) list" where
  "Map_set k v [] = [(k, v)]"
| "Map_set k v (e # es) =
     (if fst (fst e) = fst k then (fst e, v) # es else e # Map_set k v es)"

definition new_Map :: "('a ref \<times> 'b) list \<Rightarrow> ('a ref \<times> 'b) list" where
  "new_Map entries = foldl (\<lambda>m (k, v). Map_set k v m) [] entries"

fun Map_get :: "('a ref \<times> 'b) list \<Rightarrow> 'a ref \<Rightarrow> 'b option" where
  "Map_get [] k = None"
| "Map_get (e # es) k = (if fst (fst e) = fst k then Some (snd e) else Map_get es k)"

definition accumulateBuffer ::
    "'a InternalItem ref list \<Rightarrow> 'a InternalItem ref list \<Rightarrow> 'a InternalItem ref list" where
  "accumulateBuffer buffer visibleItems =
     (let itemsToAdd = ramda_difference visibleItems buffer;
          itemsFreeToUse = ramda_difference buffer visibleItems;
          replaceMap = new_Map (zip itemsFreeToUse itemsToAdd);
          itemsToBeReplaced = map fst replaceMap;
          itemsToReplaceWith = map snd replaceMap;
          itemsToDelete = ramda_difference itemsFreeToUse itemsToBeReplaced;
          itemsToAppend = ramda_difference itemsToAdd itemsToReplaceWith
      in map (\<lambda>item. case Map_get replaceMap item of None \<Rightarrow> item | Some r \<Rightarrow> r)
           (ramda_without itemsToDelete buffer) @ itemsToAppend)"


subsection \<open>The page number stream\<close>








subsection \<open>Notions used to state the properties\<close>

text \<open>
  The page as it is written (cut or filled with holes to \<open>pageSize\<close> entries), the prior
  collection filled with holes up to \<open>len\<close>, and the indices of the slice of page \<open>pn\<close>.
\<close>

definition normalized :: "int \<Rightarrow> 'a option list \<Rightarrow> 'a option list" where
  "normalized pageSize its = take (nat pageSize) its @ replicate (nat pageSize - length its) None"

definition padded :: "int \<Rightarrow> 'a option list \<Rightarrow> 'a option list" where
  "padded len allItems = allItems @ replicate (nat len - length allItems) None"

definition in_page :: "int \<Rightarrow> int \<Rightarrow> nat \<Rightarrow> bool" where
  "in_page pn pageSize i
     \<longleftrightarrow> nat (pn * pageSize) \<le> i \<and> i < nat (pn * pageSize) + nat pageSize"




section \<open>Properties\<close>

subsection \<open>The buffer window\<close>

text \<open>
  Some roundings: \<open>0.1\<close> and \<open>33.3\<close> are not doubles, \<open>2^53 + 1\<close> lies halfway between
  two doubles and goes to the even one, an integer below \<open>2^53\<close> is a double.
\<close>

lemma round_double_examples:
  "round_double (1 / 10) = 3602879701896397 / 2 ^ 55"
  "round_double (333 / 10) = 2343279181116211 / 2 ^ 46"
  "round_double (2 ^ 53 + 1) = 2 ^ 53"
  "round_double (2 ^ 53 + 3) = 2 ^ 53 + 4"
  "round_double 600 = 600"
  by code_simp+

text \<open>
  C1, as the code has it. For every \<open>heightAboveWindow \<ge> 0\<close> and every measurement with
  \<open>itemHeightWithGap > 0\<close> (the column count is an integer by its type), the buffer
  window has \<open>bufferedLength = 2 * rowsInView * columns\<close> with
  \<open>rowsInView = ceil ((windowInnerHeight + rowGap) / itemHeightWithGap) + 1\<close>, and
  \<open>bufferedOffset = max (floor ((heightAboveWindow + rowGap) / itemHeightWithGap) * columns
  - floor (rowsInView * columns / 2)) 0\<close>, where each sum and each quotient by
  \<open>itemHeightWithGap\<close> is the one of double arithmetic, rounded to the nearest double; in
  particular \<open>bufferedOffset \<ge> 0\<close>.
\<close>

theorem getBufferMeta_window:
  assumes "0 \<le> heightAboveWindow" and "0 < itemHeightWithGap m"
  shows "getBufferMeta windowInnerHeight heightAboveWindow m
           = Some \<lparr>bufferedOffset =
                    max (\<lfloor>round_double (round_double (heightAboveWindow + rowGap m)
                                          / itemHeightWithGap m)\<rfloor> * columns m
                         - ((\<lceil>round_double (round_double (windowInnerHeight + rowGap m)
                                               / itemHeightWithGap m)\<rceil> + 1)
                             * columns m) div 2) 0,
                  bufferedLength =
                    2 * (\<lceil>round_double (round_double (windowInnerHeight + rowGap m)
                                           / itemHeightWithGap m)\<rceil> + 1)
                      * columns m\<rparr>
         \<and> 0 \<le> bufferedOffset (the (getBufferMeta windowInnerHeight heightAboveWindow m))"
proof -
  from assms(2) have nz: "itemHeightWithGap m \<noteq> 0" by simp
  have half: "\<lfloor>(of_int k :: real) / 2\<rfloor> = k div 2" for k :: int
    using floor_divide_of_int_eq [of k 2, where ?'a = real] by simp
  show ?thesis
    using nz by (simp add: getBufferMeta_def double_div_def double_add_def Let_def half)
qed

theorem getBufferMeta_window_witness:
  "getBufferMeta 600 1000
     \<lparr>rowGap = 0, columns = 3, itemHeightWithGap = 6495576385630523 / 140737488355328,
        itemWidthWithGap = 200\<rparr>
     = Some \<lparr>bufferedOffset = 42, bufferedLength = 84\<rparr>"
proof -
  have "\<lceil>round_double (round_double (600 + 0) / (6495576385630523 / 140737488355328))\<rceil> = 13"
    by code_simp
  moreover
  have "\<lfloor>round_double (round_double (1000 + 0) / (6495576385630523 / 140737488355328))\<rfloor> = 21"
    by code_simp
  ultimately show ?thesis
    using getBufferMeta_window [of 1000
      "\<lparr>rowGap = 0, columns = 3, itemHeightWithGap = 6495576385630523 / 140737488355328,
         itemWidthWithGap = 200\<rparr>" 600]
    by simp
qed

text \<open>
  The claim C1 takes the floor and the ceiling of the exact quotients. With item height
  \<open>33.3\<close> (the double \<open>2343279181116211 / 2^46\<close>), three columns, no row gap, a window of
  \<open>600\<close> and \<open>heightAboveWindow = 366.29999999999995\<close> (the double
  \<open>1611004437017395 / 2^42\<close>) the quotient of the doubles is \<open>11\<close>, the exact quotient is
  below \<open>11\<close>: the code returns \<open>bufferedOffset = 3\<close> where the formula of the claim gives
  \<open>0\<close>.
\<close>

theorem getBufferMeta_exact_quotient:
  "getBufferMeta 600 (1611004437017395 / 4398046511104)
     \<lparr>rowGap = 0, columns = 3, itemHeightWithGap = 2343279181116211 / 70368744177664,
        itemWidthWithGap = 200\<rparr>
     = Some \<lparr>bufferedOffset = 3, bufferedLength = 120\<rparr>
   \<and> max (\<lfloor>(1611004437017395 / 4398046511104 + 0) / (2343279181116211 / 70368744177664 :: real)\<rfloor>
            * 3
          - ((\<lceil>(600 + 0) / (2343279181116211 / 70368744177664 :: real)\<rceil> + 1) * 3) div 2) 0
       = (0 :: int)"
  by code_simp

text \<open>
  C9. When \<open>itemHeightWithGap\<close> is \<open>0\<close> both divisions are skipped by the guard and the
  window is \<open>bufferedOffset = 0\<close>, \<open>bufferedLength = 0\<close>: finite numbers, for every
  \<open>heightAboveWindow\<close>, window height, row gap and column count.
\<close>

theorem getBufferMeta_zero_height:
  assumes "itemHeightWithGap m = 0"
  shows "getBufferMeta windowInnerHeight heightAboveWindow m
           = Some \<lparr>bufferedOffset = 0, bufferedLength = 0\<rparr>"
  using assms by (simp add: getBufferMeta_def)

theorem getBufferMeta_zero_height_witness:
  "getBufferMeta 600 250
     \<lparr>rowGap = 10, columns = 3, itemHeightWithGap = 0, itemWidthWithGap = 210\<rparr>
     = Some \<lparr>bufferedOffset = 0, bufferedLength = 0\<rparr>"
  using getBufferMeta_zero_height [of
      "\<lparr>rowGap = 10, columns = 3, itemHeightWithGap = 0, itemWidthWithGap = 210\<rparr>" 600 250]
  by simp

subsection \<open>Visible page numbers\<close>

text \<open>
  C2. For every buffer window, every \<open>len \<ge> 0\<close> and every \<open>pageSize > 0\<close> the page
  numbers emitted are the consecutive integers from \<open>floor (bufferedOffset / pageSize)\<close>
  up to, and without, \<open>ceil (min (bufferedOffset + bufferedLength) len / pageSize)\<close>, in
  increasing order; for \<open>bufferedOffset = 25\<close>, \<open>bufferedLength = 50\<close>, \<open>pageSize = 20\<close> and
  \<open>len \<ge> 75\<close> they are \<open>1, 2, 3\<close>.
\<close>

theorem getObservableOfVisiblePageNumbers_range:
  assumes "0 \<le> len" and "0 < pageSize"
  shows "getObservableOfVisiblePageNumbers b len pageSize
           = Some [\<lfloor>real_of_int (bufferedOffset b) / real_of_int pageSize\<rfloor> ..
                   \<lceil>real_of_int (min (bufferedOffset b + bufferedLength b) len)
                      / real_of_int pageSize\<rceil> - 1]
         \<and> (75 \<le> len \<longrightarrow>
              getObservableOfVisiblePageNumbers \<lparr>bufferedOffset = 25, bufferedLength = 50\<rparr> len 20
                = Some [1, 2, 3])"
proof -
  from assms(2) have nz: "real_of_int pageSize \<noteq> 0" by simp
  have gen: "getObservableOfVisiblePageNumbers c len ps
           = Some [\<lfloor>real_of_int (bufferedOffset c) / real_of_int ps\<rfloor> ..
                   \<lceil>real_of_int (min (bufferedOffset c + bufferedLength c) len)
                      / real_of_int ps\<rceil> - 1]" if "ps \<noteq> 0" for c ps
    using that by (simp add: getObservableOfVisiblePageNumbers_def js_div_def rxjs_range_def Let_def)
  have "[1 .. (3::int)] = [1, 2, 3]" by code_simp
  then have "75 \<le> len \<Longrightarrow>
      getObservableOfVisiblePageNumbers \<lparr>bufferedOffset = 25, bufferedLength = 50\<rparr> len 20
        = Some [1, 2, 3]"
    by (simp add: gen min_def)
  with gen [of pageSize b] assms(2) show ?thesis by simp
qed

theorem getObservableOfVisiblePageNumbers_range_witness:
  "getObservableOfVisiblePageNumbers \<lparr>bufferedOffset = 25, bufferedLength = 50\<rparr> 64 20
     = Some [1, 2, 3]
   \<and> getObservableOfVisiblePageNumbers \<lparr>bufferedOffset = 25, bufferedLength = 50\<rparr> 80 20
     = Some [1, 2, 3]"
proof -
  have "[1 .. (3::int)] = [1, 2, 3]" by code_simp
  with getObservableOfVisiblePageNumbers_range
    [of 64 20 "\<lparr>bufferedOffset = 25, bufferedLength = 50\<rparr>"]
   getObservableOfVisiblePageNumbers_range
    [of 80 20 "\<lparr>bufferedOffset = 25, bufferedLength = 50\<rparr>"]
  show ?thesis by simp
qed

subsection \<open>The item collection\<close>

lemma ramda_slice_0: "0 \<le> n \<Longrightarrow> ramda_slice 0 n xs = take (nat n) xs"
  by (simp add: ramda_slice_def Let_def min_def)

lemma ramda_slice_to_end: "0 \<le> i \<Longrightarrow> ramda_slice i (int (length xs)) xs = drop (nat i) xs"
  by (simp add: ramda_slice_def Let_def min_def)

lemma ramda_remove_nat:
  "0 \<le> s \<Longrightarrow> 0 \<le> c \<Longrightarrow> ramda_remove s c xs = take (nat s) xs @ drop (nat s + nat c) xs"
  by (auto simp add: ramda_remove_def Let_def min_def max_def nat_add_distrib)

lemma ramda_insertAll_nat:
  "0 \<le> i \<Longrightarrow> ramda_insertAll i es xs = take (nat i) xs @ es @ drop (nat i) xs"
  by (auto simp add: ramda_insertAll_def Let_def ramda_slice_0 ramda_slice_to_end)

lemma length_ramda_remove:
  "0 \<le> c \<Longrightarrow> length xs \<le> length (ramda_remove s c xs) + nat c"
  by (auto simp add: ramda_remove_def Let_def min_def max_def)

lemma length_ramda_insertAll:
  "length (ramda_insertAll i es xs) = length xs + length es"
  by (auto simp add: ramda_insertAll_def Let_def ramda_slice_0 ramda_slice_to_end)

lemma accumulateAllItems_unfold:
  assumes "0 \<le> pageSize"
  shows "accumulateAllItems allItems (page, len, pageSize)
     = Inr (ramda_slice 0 len
             (ramda_insertAll (pageNumber page * pageSize) (normalized pageSize (items page))
                (ramda_remove (pageNumber page * pageSize) pageSize (padded len allItems))))"
proof -
  have 1: "nat (max (len - int (length allItems)) 0) = nat len - length allItems"
    by (simp add: max_def) arith
  have 2: "nat (max (pageSize - int (length (items page))) 0) = nat pageSize - length (items page)"
    by (simp add: max_def) arith
  show ?thesis using assms
    by (simp add: accumulateAllItems_def new_Array_fill_undefined_def 1 2 Let_def
        normalized_def padded_def ramda_slice_0)
qed

lemma length_normalized: "0 \<le> pageSize \<Longrightarrow> length (normalized pageSize its) = nat pageSize"
  by (simp add: normalized_def)

lemma length_padded: "nat len \<le> length (padded len allItems)"
  by (simp add: padded_def)

lemma splice_nth:
  assumes "length N = S" and "i < length P"
  shows "(take K P @ N @ drop (K + S) P) ! i
           = (if K \<le> i \<and> i < K + S then N ! (i - K) else P ! i)"
  using assms by (auto simp add: nth_append min_def)

lemma length_splice:
  assumes "length N = S"
  shows "length P \<le> length (take K P @ N @ drop (K + S) P)"
  using assms by (auto simp add: min_def)

lemma take_eq_map_nth:
  assumes "n \<le> length xs" and "\<And>i. i < n \<Longrightarrow> xs ! i = f i"
  shows "take n xs = map f [0..<n]"
  using assms by (intro nth_equalityI) simp_all

lemma accumulateAllItems_splice:
  assumes "0 \<le> len" and "0 \<le> pageSize" and "0 \<le> pageNumber page"
  shows "accumulateAllItems allItems (page, len, pageSize)
     = Inr (take (nat len)
             (take (nat (pageNumber page * pageSize)) (padded len allItems)
              @ normalized pageSize (items page)
              @ drop (nat (pageNumber page * pageSize) + nat pageSize) (padded len allItems)))"
proof -
  let ?K = "nat (pageNumber page * pageSize)"
  let ?S = "nat pageSize"
  let ?N = "normalized pageSize (items page)"
  let ?P = "padded len allItems"
  have nonneg: "0 \<le> pageNumber page * pageSize"
    using assms by simp
  have R: "ramda_remove (pageNumber page * pageSize) pageSize ?P = take ?K ?P @ drop (?K + ?S) ?P"
    using nonneg assms(2) by (rule ramda_remove_nat)
  have tk: "take ?K (take ?K ?P @ drop (?K + ?S) ?P) = take ?K ?P"
    by (simp add: min_def)
  have dr: "drop ?K (take ?K ?P @ drop (?K + ?S) ?P) = drop (?K + ?S) ?P"
    by (auto simp add: min_def)
  have "ramda_insertAll (pageNumber page * pageSize) ?N
          (ramda_remove (pageNumber page * pageSize) pageSize ?P)
        = take ?K ?P @ ?N @ drop (?K + ?S) ?P"
    using nonneg by (simp only: R ramda_insertAll_nat tk dr)
  then show ?thesis
    using assms by (simp only: accumulateAllItems_unfold ramda_slice_0)
qed

lemma accumulateAllItems_closed:
  assumes "0 \<le> len" and "0 \<le> pageSize" and "0 \<le> pageNumber page"
  shows "accumulateAllItems allItems (page, len, pageSize)
     = Inr (map (\<lambda>i. if in_page (pageNumber page) pageSize i
                      then normalized pageSize (items page) ! (i - nat (pageNumber page * pageSize))
                      else padded len allItems ! i)
              [0..<nat len])"
proof -
  let ?K = "nat (pageNumber page * pageSize)"
  let ?S = "nat pageSize"
  let ?N = "normalized pageSize (items page)"
  let ?P = "padded len allItems"
  let ?X = "take ?K ?P @ ?N @ drop (?K + ?S) ?P"
  have lenN: "length ?N = ?S"
    using assms(2) by (rule length_normalized)
  have lenX: "nat len \<le> length ?X"
    using length_padded [of len allItems] length_splice [OF lenN, of ?P ?K] by linarith
  have "take (nat len) ?X
          = map (\<lambda>i. if in_page (pageNumber page) pageSize i then ?N ! (i - ?K) else ?P ! i)
              [0..<nat len]"
  proof (rule take_eq_map_nth [OF lenX])
    fix i assume i: "i < nat len"
    with length_padded [of len allItems] have "i < length ?P" by linarith
    from splice_nth [OF lenN this, of ?K]
    show "?X ! i = (if in_page (pageNumber page) pageSize i then ?N ! (i - ?K) else ?P ! i)"
      by (simp only: in_page_def)
  qed
  with accumulateAllItems_splice [OF assms, of allItems] show ?thesis by simp
qed

lemma padded_full: "length xs = nat len \<Longrightarrow> padded len xs = xs"
  by (simp add: padded_def)

lemma two_pages:
  assumes "0 \<le> len" and "0 \<le> pageSize" and "0 \<le> pageNumber p" and "0 \<le> pageNumber q"
  shows "scan_accumulateAllItems allItems [(p, len, pageSize), (q, len, pageSize)]
     = Inr (map (\<lambda>i. if in_page (pageNumber q) pageSize i
                      then normalized pageSize (items q) ! (i - nat (pageNumber q * pageSize))
                      else if in_page (pageNumber p) pageSize i
                      then normalized pageSize (items p) ! (i - nat (pageNumber p * pageSize))
                      else padded len allItems ! i)
              [0..<nat len])"
proof -
  let ?f = "\<lambda>i. if in_page (pageNumber p) pageSize i
                then normalized pageSize (items p) ! (i - nat (pageNumber p * pageSize))
                else padded len allItems ! i"
  have 1: "accumulateAllItems allItems (p, len, pageSize) = Inr (map ?f [0..<nat len])"
    using assms(1,2,3) by (rule accumulateAllItems_closed)
  have 2: "padded len (map ?f [0..<nat len]) = map ?f [0..<nat len]"
    by (rule padded_full) simp
  have 3: "accumulateAllItems (map ?f [0..<nat len]) (q, len, pageSize)
     = Inr (map (\<lambda>i. if in_page (pageNumber q) pageSize i
                      then normalized pageSize (items q) ! (i - nat (pageNumber q * pageSize))
                      else map ?f [0..<nat len] ! i)
              [0..<nat len])"
    using assms(1,2,4) by (simp only: accumulateAllItems_closed 2)
  show ?thesis
    by (simp only: scan_accumulateAllItems.simps 1 3 sum.case) simp
qed

lemma pages_disjoint:
  assumes "0 < pageSize" and "0 \<le> a" and "0 \<le> b" and "a \<noteq> b"
  shows "\<not> (in_page a pageSize i \<and> in_page b pageSize i)"
proof -
  have less: "nat (x * pageSize) + nat pageSize \<le> nat (y * pageSize)"
    if "0 \<le> x" and "x < y" for x y :: int
  proof -
    from that have "x + 1 \<le> y" by simp
    with assms(1) have "(x + 1) * pageSize \<le> y * pageSize"
      by (simp add: mult_right_mono)
    moreover have "0 \<le> x * pageSize" using that(1) assms(1) by simp
    ultimately show ?thesis using assms(1)
      by (simp add: algebra_simps)
  qed
  from assms(4) consider "a < b" | "b < a" by linarith
  then show ?thesis
  proof cases
    case 1
    from less [OF assms(2) 1] show ?thesis by (auto simp add: in_page_def)
  next
    case 2
    from less [OF assms(3) 2] show ?thesis by (auto simp add: in_page_def)
  qed
qed

text \<open>
  C5, as the code has it. For a fixed total length \<open>len \<ge> 0\<close> and page size
  \<open>pageSize > 0\<close>, folding \<^const>\<open>accumulateAllItems\<close> over two fetched pages with distinct
  page numbers, both \<open>\<ge> 0\<close>, gives the same collection in either order, from every
  starting collection, and neither fold throws.
\<close>

theorem accumulateAllItems_order_independent:
  assumes "0 \<le> len" and "0 < pageSize"
    and "0 \<le> pageNumber p" and "0 \<le> pageNumber q" and "pageNumber p \<noteq> pageNumber q"
  shows "scan_accumulateAllItems allItems [(p, len, pageSize), (q, len, pageSize)]
           = scan_accumulateAllItems allItems [(q, len, pageSize), (p, len, pageSize)]
         \<and> (\<exists>r. scan_accumulateAllItems allItems [(p, len, pageSize), (q, len, pageSize)] = Inr r)"
proof -
  from assms(2) have ps: "0 \<le> pageSize" by simp
  note d = pages_disjoint [OF assms(2,3,4,5)]
  show ?thesis
    unfolding two_pages [OF assms(1) ps assms(3,4)] two_pages [OF assms(1) ps assms(4,3)]
    using d by auto
qed


theorem accumulateAllItems_order_independent_witness:
  "scan_accumulateAllItems [Some (7::nat)]
     [(\<lparr>pageNumber = 1, items = [Some 3, Some 4]\<rparr>, 5, 2),
      (\<lparr>pageNumber = 0, items = [Some 1]\<rparr>, 5, 2)]
   = scan_accumulateAllItems [Some 7]
     [(\<lparr>pageNumber = 0, items = [Some 1]\<rparr>, 5, 2),
      (\<lparr>pageNumber = 1, items = [Some 3, Some 4]\<rparr>, 5, 2)]"
  using accumulateAllItems_order_independent [of 5 2
      "\<lparr>pageNumber = 1, items = [Some 3, Some 4]\<rparr>" "\<lparr>pageNumber = 0, items = [Some 1]\<rparr>"
      "[Some (7::nat)]"]
  by simp

text \<open>
  The claim C5 is for every two pages with distinct page numbers. With the page numbers
  \<open>-1\<close> and \<open>2\<close>, page size \<open>2\<close> and a collection of five items, page \<open>-1\<close> is written
  over the last two entries (\<^verbatim>\<open>splice\<close> counts a negative start from the end,
  \<^verbatim>\<open>insertAll\<close> appends), where the first entry of page \<open>2\<close> goes too: the later page
  wins, and the two orders differ in the last entry.
\<close>

theorem accumulateAllItems_order_negative_page:
  "scan_accumulateAllItems [Some 1, Some 2, Some 3, Some 4, Some (5::nat)]
     [(\<lparr>pageNumber = - 1, items = [Some 8, Some 9]\<rparr>, 5, 2),
      (\<lparr>pageNumber = 2, items = [Some 7, Some 6]\<rparr>, 5, 2)]
     = Inr [Some 1, Some 2, Some 3, Some 8, Some 7]
   \<and> scan_accumulateAllItems [Some 1, Some 2, Some 3, Some 4, Some (5::nat)]
     [(\<lparr>pageNumber = 2, items = [Some 7, Some 6]\<rparr>, 5, 2),
      (\<lparr>pageNumber = - 1, items = [Some 8, Some 9]\<rparr>, 5, 2)]
     = Inr [Some 1, Some 2, Some 3, Some 8, Some 9]
   \<and> scan_accumulateAllItems [Some 1, Some 2, Some 3, Some 4, Some (5::nat)]
     [(\<lparr>pageNumber = - 1, items = [Some 8, Some 9]\<rparr>, 5, 2),
      (\<lparr>pageNumber = 2, items = [Some 7, Some 6]\<rparr>, 5, 2)]
     \<noteq> scan_accumulateAllItems [Some 1, Some 2, Some 3, Some 4, Some 5]
     [(\<lparr>pageNumber = 2, items = [Some 7, Some 6]\<rparr>, 5, 2),
      (\<lparr>pageNumber = - 1, items = [Some 8, Some 9]\<rparr>, 5, 2)]"
  by code_simp

text \<open>
  C4, as the code has it. For a page with \<open>pageNumber \<ge> 0\<close>, \<open>items.length = pageSize\<close>,
  \<open>pageSize > 0\<close> and \<open>(pageNumber + 1) * pageSize \<le> len\<close>, the returned collection has the
  page's items on the slice \<open>[pageNumber * pageSize, pageNumber * pageSize + pageSize)\<close>,
  which lies below \<open>len\<close>, and at every other index below \<open>len\<close> the entry of the prior
  collection filled with holes up to \<open>len\<close>.
\<close>

theorem accumulateAllItems_replaces_page:
  assumes "0 \<le> len" and "0 < pageSize" and "0 \<le> pageNumber page"
    and "int (length (items page)) = pageSize"
    and "(pageNumber page + 1) * pageSize \<le> len"
  shows "accumulateAllItems allItems (page, len, pageSize)
           = Inr (map (\<lambda>i. if in_page (pageNumber page) pageSize i
                            then items page ! (i - nat (pageNumber page * pageSize))
                            else padded len allItems ! i)
                    [0..<nat len])
         \<and> nat (pageNumber page * pageSize) + nat pageSize \<le> nat len"
proof -
  from assms(2) have ps: "0 \<le> pageSize" by simp
  from assms(4) have "normalized pageSize (items page) = items page"
    by (auto simp add: normalized_def)
  with accumulateAllItems_closed [OF assms(1) ps assms(3), of allItems]
  have "accumulateAllItems allItems (page, len, pageSize)
           = Inr (map (\<lambda>i. if in_page (pageNumber page) pageSize i
                            then items page ! (i - nat (pageNumber page * pageSize))
                            else padded len allItems ! i)
                    [0..<nat len])"
    by simp
  moreover have "nat (pageNumber page * pageSize) + nat pageSize \<le> nat len"
  proof -
    have "0 \<le> pageNumber page * pageSize" using assms(2,3) by simp
    then have "nat (pageNumber page * pageSize) + nat pageSize
                 = nat (pageNumber page * pageSize + pageSize)"
      using ps by (simp add: nat_add_distrib)
    also have "\<dots> \<le> nat len"
      using assms(5) by (intro nat_mono) (simp add: algebra_simps)
    finally show ?thesis .
  qed
  ultimately show ?thesis by simp
qed

theorem accumulateAllItems_replaces_page_witness:
  "accumulateAllItems [Some 5, Some 6, Some 7, Some 8, Some (9::nat)]
     (\<lparr>pageNumber = 1, items = [Some 1, Some 2]\<rparr>, 6, 2)
     = Inr [Some 5, Some 6, Some 1, Some 2, Some 9, None]"
proof -
  have "map (\<lambda>i. if in_page 1 2 i then [Some 1, Some 2] ! (i - nat (1 * 2))
                  else padded 6 [Some 5, Some 6, Some 7, Some 8, Some (9::nat)] ! i) [0..<nat 6]
          = [Some 5, Some 6, Some 1, Some 2, Some 9, None]"
    by code_simp
  with accumulateAllItems_replaces_page [of 6 2 "\<lparr>pageNumber = 1, items = [Some 1, Some 2]\<rparr>"
      "[Some 5, Some 6, Some 7, Some 8, Some (9::nat)]"]
  show ?thesis by (simp cong: if_cong)
qed

text \<open>
  The claim C4 is for every fetched page. The page with \<open>pageNumber = -1\<close>, two items,
  \<open>pageSize = 2\<close> and \<open>len = 5\<close> meets its conditions (\<open>(-1 + 1) * 2 \<le> 5\<close>), and no index
  below \<open>len\<close> is in its slice \<open>[-2, 0)\<close>; the code writes the page over the entries \<open>3\<close>
  and \<open>4\<close> of the prior collection.
\<close>

theorem accumulateAllItems_negative_page:
  "accumulateAllItems [Some 1, Some 2, Some 3, Some 4, Some (5::nat)]
     (\<lparr>pageNumber = - 1, items = [Some 8, Some 9]\<rparr>, 5, 2)
     = Inr [Some 1, Some 2, Some 3, Some 8, Some 9]
   \<and> padded 5 [Some 1, Some 2, Some 3, Some 4, Some (5::nat)]
     = [Some 1, Some 2, Some 3, Some 4, Some 5]"
  by code_simp

text \<open>
  C6. For every prior collection, of any length, every fetched page, every \<open>len \<ge> 0\<close>
  and every \<open>pageSize \<ge> 0\<close>, \<^const>\<open>accumulateAllItems\<close> returns without an exception
  a collection of length exactly \<open>len\<close>: a shorter prior collection is filled up, a longer
  one is cut. For a page number of the data model (\<open>pageNumber \<ge> 0\<close>) its entries are
  those of the page on the page's slice and, elsewhere, those of the prior collection
  filled with holes up to \<open>len\<close>.
\<close>

theorem accumulateAllItems_length:
  assumes "0 \<le> len" and "0 \<le> pageSize"
  shows "\<exists>r. accumulateAllItems allItems (page, len, pageSize) = Inr r \<and> length r = nat len
           \<and> (0 \<le> pageNumber page \<longrightarrow>
                r = map (\<lambda>i. if in_page (pageNumber page) pageSize i
                              then normalized pageSize (items page)
                                     ! (i - nat (pageNumber page * pageSize))
                              else padded len allItems ! i)
                      [0..<nat len])"
proof -
  let ?R = "ramda_remove (pageNumber page * pageSize) pageSize (padded len allItems)"
  have "length (padded len allItems) \<le> length ?R + nat pageSize"
    using assms(2) by (rule length_ramda_remove)
  with length_padded [of len allItems]
  have "nat len \<le> length (ramda_insertAll (pageNumber page * pageSize)
                            (normalized pageSize (items page)) ?R)"
    using assms(2) by (simp add: length_ramda_insertAll length_normalized)
  then obtain r where r: "accumulateAllItems allItems (page, len, pageSize) = Inr r"
      and "length r = nat len"
    using assms by (simp add: accumulateAllItems_unfold ramda_slice_0)
  moreover have "r = map (\<lambda>i. if in_page (pageNumber page) pageSize i
                              then normalized pageSize (items page)
                                     ! (i - nat (pageNumber page * pageSize))
                              else padded len allItems ! i)
                      [0..<nat len]" if "0 \<le> pageNumber page"
    using accumulateAllItems_closed [OF assms that, of allItems] r by simp
  ultimately show ?thesis by blast
qed

theorem accumulateAllItems_length_witness:
  "\<exists>r. accumulateAllItems [Some 1, Some 2, Some (3::nat)]
          (\<lparr>pageNumber = 0, items = [Some 9]\<rparr>, 2, 1) = Inr r \<and> length r = 2"
  using accumulateAllItems_length [of 2 1 "[Some 1, Some 2, Some (3::nat)]"
      "\<lparr>pageNumber = 0, items = [Some 9]\<rparr>"]
  by auto

subsection \<open>Visible items\<close>

lemma ramda_slice_window:
  assumes "0 \<le> off" and "0 \<le> n"
  shows "ramda_slice off (off + n) xs = take (nat n) (drop (nat off) xs)"
  using assms by (auto simp add: ramda_slice_def Let_def min_def)

lemma js_rem_nonneg: "0 \<le> i \<Longrightarrow> 0 < c \<Longrightarrow> js_rem i c = Some (i mod c)"
  by (cases "i = 0") (simp_all add: js_rem_def)

lemma js_div_floor:
  "c \<noteq> 0 \<Longrightarrow> map_option (\<lambda>q. real_of_int \<lfloor>q\<rfloor> * h) (js_div (of_int i) (of_int c))
     = Some (real_of_int (i div c) * h)"
  by (simp add: js_div_def floor_divide_of_int_eq)

text \<open>
  C3, as the code has it. For a buffer window of the data model (\<open>bufferedOffset \<ge> 0\<close>,
  \<open>bufferedLength \<ge> 0\<close>) and \<open>columns > 0\<close>, \<^const>\<open>getVisibleItems\<close> returns one slot
  for every index \<open>i\<close> from \<open>bufferedOffset\<close> up to, and without,
  \<open>min (bufferedOffset + bufferedLength) allItems.length\<close>, in increasing order, with the
  value \<open>allItems[i]\<close> and the layout
  \<open>translate ((i mod columns) * itemWidthWithGap, floor (i / columns) * itemHeightWithGap)\<close>;
  an index at or beyond \<open>allItems.length\<close> has no slot, because \<^verbatim>\<open>slice\<close> stops at the end
  of the collection.
\<close>

theorem getVisibleItems_slots:
  assumes "0 \<le> bufferedOffset b" and "0 \<le> bufferedLength b" and "0 < columns m"
  shows "getVisibleItems b m allItems
           = map (\<lambda>i. \<lparr>index = int i, item_value = allItems ! i,
                        style = Some \<lparr>transform =
                                  Translate
                                    (Some (real_of_int (int i mod columns m) * itemWidthWithGap m))
                                    (Some (real_of_int (int i div columns m) * itemHeightWithGap m)),
                                  gridArea = ''1/1''\<rparr>\<rparr>)
               [nat (bufferedOffset b) ..<
                  min (nat (bufferedOffset b + bufferedLength b)) (length allItems)]"
proof (rule nth_equalityI)
  let ?O = "nat (bufferedOffset b)"
  let ?B = "nat (bufferedLength b)"
  let ?ys = "take ?B (drop ?O allItems)"
  have sl: "ramda_slice (bufferedOffset b) (bufferedOffset b + bufferedLength b) allItems = ?ys"
    using assms(1,2) by (rule ramda_slice_window)
  have OB: "nat (bufferedOffset b + bufferedLength b) = ?O + ?B"
    using assms(1,2) by (simp add: nat_add_distrib)
  show len: "length (getVisibleItems b m allItems)
      = length (map (\<lambda>i. \<lparr>index = int i, item_value = allItems ! i,
                        style = Some \<lparr>transform =
                                  Translate
                                    (Some (real_of_int (int i mod columns m) * itemWidthWithGap m))
                                    (Some (real_of_int (int i div columns m) * itemHeightWithGap m)),
                                  gridArea = ''1/1''\<rparr>\<rparr>)
               [nat (bufferedOffset b) ..<
                  min (nat (bufferedOffset b + bufferedLength b)) (length allItems)])"
    by (simp add: getVisibleItems_def sl OB)
  fix j assume "j < length (getVisibleItems b m allItems)"
  then have j: "j < length ?ys"
    by (simp add: getVisibleItems_def sl)
  then have jB: "j < ?B" and jn: "?O + j < length allItems" by (simp, simp, linarith)
  have i: "bufferedOffset b + int j = int (?O + j)"
    using assms(1) by simp
  have nn: "0 \<le> int (?O + j)" by simp
  from assms(3) have cnz: "columns m \<noteq> 0" by simp
  have "getVisibleItems b m allItems ! j
      = \<lparr>index = int (?O + j), item_value = allItems ! (?O + j),
          style = Some \<lparr>transform =
                    Translate
                      (Some (real_of_int (int (?O + j) mod columns m) * itemWidthWithGap m))
                      (Some (real_of_int (int (?O + j) div columns m) * itemHeightWithGap m)),
                    gridArea = ''1/1''\<rparr>\<rparr>"
    using j jn
    by (simp only: getVisibleItems_def sl nth_map length_enumerate nth_enumerate_eq
        case_prod_conv Let_def i js_rem_nonneg [OF nn assms(3)] js_div_floor [OF cnz]
        option.map nth_take [OF jB] nth_drop add_0)
  moreover have "[?O ..< min (?O + ?B) (length allItems)] ! j = ?O + j"
    using jB jn by simp
  ultimately show "getVisibleItems b m allItems ! j
      = map (\<lambda>i. \<lparr>index = int i, item_value = allItems ! i,
                        style = Some \<lparr>transform =
                                  Translate
                                    (Some (real_of_int (int i mod columns m) * itemWidthWithGap m))
                                    (Some (real_of_int (int i div columns m) * itemHeightWithGap m)),
                                  gridArea = ''1/1''\<rparr>\<rparr>)
               [nat (bufferedOffset b) ..<
                  min (nat (bufferedOffset b + bufferedLength b)) (length allItems)] ! j"
    using jB jn by (simp add: OB)
qed

theorem getVisibleItems_slots_witness:
  "getVisibleItems \<lparr>bufferedOffset = 1, bufferedLength = 4\<rparr>
     \<lparr>rowGap = 10, columns = 2, itemHeightWithGap = 110, itemWidthWithGap = 210\<rparr>
     [Some (7::nat), None, Some 9]
   = [\<lparr>index = 1, item_value = None,
        style = Some \<lparr>transform = Translate (Some 210) (Some 0), gridArea = ''1/1''\<rparr>\<rparr>,
      \<lparr>index = 2, item_value = Some 9,
        style = Some \<lparr>transform = Translate (Some 0) (Some 110), gridArea = ''1/1''\<rparr>\<rparr>]"
proof -
  have "[Suc 0 ..< 3] = [1, 2]" by code_simp
  with getVisibleItems_slots [of "\<lparr>bufferedOffset = 1, bufferedLength = 4\<rparr>"
      "\<lparr>rowGap = 10, columns = 2, itemHeightWithGap = 110, itemWidthWithGap = 210\<rparr>"
      "[Some (7::nat), None, Some 9]"]
  show ?thesis by simp
qed

text \<open>
  The claim C3 asks for a slot with an undefined value at every index of the window beyond
  the collection. With a collection of one item and the window \<open>[0, 4)\<close> the only slot is
  the one of index \<open>0\<close>.
\<close>

theorem getVisibleItems_beyond_collection:
  "map index (getVisibleItems \<lparr>bufferedOffset = 0, bufferedLength = 4\<rparr>
       \<lparr>rowGap = 10, columns = 2, itemHeightWithGap = 110, itemWidthWithGap = 210\<rparr>
       [Some (7::nat)]) = [0]
   \<and> map index (getVisibleItems \<lparr>bufferedOffset = 0, bufferedLength = 4\<rparr>
       \<lparr>rowGap = 10, columns = 2, itemHeightWithGap = 110, itemWidthWithGap = 210\<rparr>
       [Some (7::nat)]) \<noteq> [0, 1, 2, 3]"
  by (simp add: getVisibleItems_def ramda_slice_def)

subsection \<open>The render buffer\<close>

lemma ramda_difference_loop_all_seen:
  "set (map snd first) \<subseteq> set toFilterOut \<Longrightarrow> ramda_difference_loop toFilterOut first = []"
  by (induction first arbitrary: toFilterOut) auto

lemma ramda_difference_loop_distinct:
  "distinct (map snd first) \<Longrightarrow> set (map snd first) \<inter> set toFilterOut = {}
     \<Longrightarrow> ramda_difference_loop toFilterOut first = first"
  by (induction first arbitrary: toFilterOut) auto

lemma ramda_difference_Nil [simp]: "ramda_difference [] second = []"
  by (simp add: ramda_difference_def)

lemma ramda_without_Nil [simp]: "ramda_without [] list = list"
  by (simp add: ramda_without_def)

lemma new_Map_Nil [simp]: "new_Map [] = []"
  by (simp add: new_Map_def)

text \<open>
  C7. When the new projection equals the previous buffer slot by slot (the same index,
  value and layout, in the same order), \<^const>\<open>accumulateBuffer\<close> returns the previous
  buffer itself: the same objects at the same positions, nothing replaced, deleted or
  appended.
\<close>

theorem accumulateBuffer_same_projection:
  assumes "map snd visibleItems = map snd buffer"
  shows "accumulateBuffer buffer visibleItems = buffer"
proof -
  have "ramda_difference visibleItems buffer = []"
    unfolding ramda_difference_def using assms
    by (intro ramda_difference_loop_all_seen) simp
  moreover have "ramda_difference buffer visibleItems = []"
    unfolding ramda_difference_def using assms
    by (intro ramda_difference_loop_all_seen) simp
  ultimately show ?thesis
    by (simp add: accumulateBuffer_def)
qed

theorem accumulateBuffer_same_projection_witness:
  "accumulateBuffer
     [(0, \<lparr>index = 0, item_value = Some (10::nat), style = None\<rparr>),
      (1, \<lparr>index = 1, item_value = None, style = None\<rparr>)]
     [(2, \<lparr>index = 0, item_value = Some 10, style = None\<rparr>),
      (3, \<lparr>index = 1, item_value = None, style = None\<rparr>)]
   = [(0, \<lparr>index = 0, item_value = Some 10, style = None\<rparr>),
      (1, \<lparr>index = 1, item_value = None, style = None\<rparr>)]"
  using accumulateBuffer_same_projection [of
     "[(2, \<lparr>index = 0, item_value = Some (10::nat), style = None\<rparr>),
       (3, \<lparr>index = 1, item_value = None, style = None\<rparr>)]"
     "[(0, \<lparr>index = 0, item_value = Some (10::nat), style = None\<rparr>),
       (1, \<lparr>index = 1, item_value = None, style = None\<rparr>)]"]
  by simp

text \<open>
  C10. From an empty buffer, a projection whose slots are pairwise distinct (as values,
  which is how \<^verbatim>\<open>difference\<close> compares them) becomes the buffer as it is: the same
  objects in the same order.
\<close>

theorem accumulateBuffer_first_projection:
  assumes "distinct (map snd visibleItems)"
  shows "accumulateBuffer [] visibleItems = visibleItems"
proof -
  have "ramda_difference visibleItems [] = visibleItems"
    unfolding ramda_difference_def using assms
    by (intro ramda_difference_loop_distinct) simp_all
  then show ?thesis
    by (simp add: accumulateBuffer_def)
qed

theorem accumulateBuffer_first_projection_witness:
  "accumulateBuffer []
     [(2, \<lparr>index = 0, item_value = Some (10::nat), style = None\<rparr>),
      (3, \<lparr>index = 1, item_value = None, style = None\<rparr>)]
   = [(2, \<lparr>index = 0, item_value = Some 10, style = None\<rparr>),
      (3, \<lparr>index = 1, item_value = None, style = None\<rparr>)]"
  using accumulateBuffer_first_projection [of
     "[(2, \<lparr>index = 0, item_value = Some (10::nat), style = None\<rparr>),
       (3, \<lparr>index = 1, item_value = None, style = None\<rparr>)]"]
  by simp

subsection \<open>The page number stream\<close>










end
